theory Spec2Isabelle
  imports Complex_Main
begin

section \<open>The Qdrant provider of the hybrid retrieval application\<close>

text \<open>
  The file \<^verbatim>\<open>src/stores/vectordb/providers/QdrantDBProvider.py\<close> wraps a vector
  database client. The provider is modelled method by method; the client
  itself belongs to an external library and is a parameter of every method:
  a record of operations over an arbitrary client state.

  A Python method call either returns a value or raises, and in both cases it
  may have changed the client first. A mutating method is therefore a function
  to \<open>(exn + 'a) \<times> provider\<close>: the outcome (\<open>Inl\<close> the exception raised) and the
  provider as the call leaves it.
\<close>

subsection \<open>Exceptions\<close>

datatype exn =
    AttributeError
  | IndexError
  | ValueError
  | ValidationError
  | LibraryError string

subsection \<open>The data handed to and returned by the client library\<close>

text \<open>\<^verbatim>\<open>models.Distance\<close>: the two members the provider selects.\<close>

datatype distance = COSINE | DOT

text \<open>
  \<^verbatim>\<open>DistanceMethodEnums\<close> lives in \<^verbatim>\<open>VectorDBEnums\<close>; only the \<^verbatim>\<open>.value\<close> strings of
  its two members are read, and they are taken as parameters.
\<close>

record distance_method_enums =
  COSINE_value :: string
  DOT_value :: string

text \<open>
  \<^verbatim>\<open>models.VectorParams(size=..., distance=...)\<close>. The distance is a required field
  of this class: the constructor refuses \<^verbatim>\<open>None\<close> with a \<^verbatim>\<open>ValidationError\<close>.
\<close>

record vector_params =
  vp_size :: int
  vp_distance :: distance

definition VectorParams :: "int \<Rightarrow> distance option \<Rightarrow> exn + vector_params" where
  "VectorParams n distance =
     (case distance of
        None \<Rightarrow> Inl ValidationError
      | Some d \<Rightarrow> Inr \<lparr>vp_size = n, vp_distance = d\<rparr>)"

text \<open>The two keyword arguments of \<^verbatim>\<open>client.create_collection\<close>: the \<^verbatim>\<open>"dense"\<close>
  vector parameters and the \<^verbatim>\<open>on_disk\<close> flag of the \<^verbatim>\<open>"sparse"\<close> index.\<close>

record collection_config =
  dense_params :: vector_params
  sparse_on_disk :: bool

text \<open>\<^verbatim>\<open>models.SparseVector(**d)\<close> for a dictionary \<^verbatim>\<open>d\<close> with its two fields.\<close>

record sparse_vector =
  sv_indices :: "int list"
  sv_values :: "real list"

datatype point_id = IntId int | StrId string

text \<open>The payload dictionary the provider writes: \<^verbatim>\<open>{"text": ..., "metadata": ...}\<close>.\<close>

record 'm payload =
  payload_text :: string
  payload_metadata :: "'m option"

text \<open>\<^verbatim>\<open>models.Record(id=..., vector={"dense": ..., "sparse": ...}, payload=...)\<close>.\<close>

record 'm point =
  rec_id :: point_id
  rec_dense :: "real list"
  rec_sparse :: sparse_vector
  rec_payload :: "'m payload"

text \<open>An element of \<^verbatim>\<open>results.points\<close>: the fields the provider reads. The payload
  is the dictionary written at insertion, so \<^verbatim>\<open>result.payload["text"]\<close> selects a field.\<close>

record 'm scored_point =
  sp_score :: real
  sp_payload :: "'m payload"

datatype query =
    Nearest "real list"
  | NearestSparse sparse_vector
  | FusionRRF

record prefetch =
  pf_query :: query
  pf_using :: string
  pf_limit :: int

text \<open>The keyword arguments of \<^verbatim>\<open>client.query_points\<close>.\<close>

record query_request =
  q_query :: query
  q_using :: "string option"
  q_prefetch :: "prefetch list"
  q_limit :: int

text \<open>
  Modelled from the spec: \<^verbatim>\<open>RetrievedDocument\<close> (\<^verbatim>\<open>models/db_schemes\<close>), the
  (score, text) pair of a query result.
\<close>

record retrieved_document =
  doc_score :: real
  doc_text :: string

subsection \<open>The client\<close>

text \<open>
  \<^verbatim>\<open>QdrantClient\<close> is external. Its constructor and the five methods the provider
  calls are the fields of a record over the client's state \<open>'s\<close>. The two
  queries read the state; the three commands return an outcome and the state
  they leave, also when they raise.
\<close>

record ('s, 'm) qdrant =
  QdrantClient :: "string \<Rightarrow> exn + 's"
  client_collection_exists :: "string \<Rightarrow> 's \<Rightarrow> exn + bool"
  client_delete_collection :: "string \<Rightarrow> 's \<Rightarrow> (exn + bool) \<times> 's"
  client_create_collection :: "string \<Rightarrow> collection_config \<Rightarrow> 's \<Rightarrow> (exn + bool) \<times> 's"
  client_upload_records :: "string \<Rightarrow> 'm point list \<Rightarrow> 's \<Rightarrow> exn option \<times> 's"
  client_query_points :: "string \<Rightarrow> query_request \<Rightarrow> 's \<Rightarrow> exn + 'm scored_point list"

subsection \<open>The provider\<close>

text \<open>\<^verbatim>\<open>self.client\<close> is \<^verbatim>\<open>None\<close> until \<^verbatim>\<open>connect\<close>; a method called on it then
  raises \<^verbatim>\<open>AttributeError\<close>.\<close>

record 's provider =
  client :: "'s option"
  db_path :: string
  distance_method :: "distance option"



definition disconnect :: "'s provider \<Rightarrow> 's provider" where
  "disconnect p = p\<lparr>client := None\<rparr>"

definition is_collection_existed :: "('s, 'm) qdrant \<Rightarrow> 's provider \<Rightarrow> string \<Rightarrow> exn + bool" where
  "is_collection_existed Q p collection_name =
     (case client p of
        None \<Rightarrow> Inl AttributeError
      | Some s \<Rightarrow> client_collection_exists Q collection_name s)"

text \<open>The result of \<^verbatim>\<open>delete_collection\<close> is what the client returns, or Python's
  \<^verbatim>\<open>None\<close> when the method falls off its end.\<close>

definition delete_collection ::
  "('s, 'm) qdrant \<Rightarrow> 's provider \<Rightarrow> string \<Rightarrow> (exn + bool option) \<times> 's provider" where
  "delete_collection Q p collection_name =
     (case is_collection_existed Q p collection_name of
        Inl e \<Rightarrow> (Inl e, p)
      | Inr existed \<Rightarrow>
          if existed then
            (case client p of
               None \<Rightarrow> (Inl AttributeError, p)
             | Some s \<Rightarrow>
                 (case client_delete_collection Q collection_name s of
                    (Inl e, s') \<Rightarrow> (Inl e, p\<lparr>client := Some s'\<rparr>)
                  | (Inr r, s') \<Rightarrow> (Inr (Some r), p\<lparr>client := Some s'\<rparr>)))
          else (Inr None, p))"

text \<open>The arguments of \<^verbatim>\<open>self.client.create_collection(...)\<close> are evaluated in the
  provider, after the attribute \<^verbatim>\<open>create_collection\<close> of the client has been looked up:
  an exception of \<^verbatim>\<open>models.VectorParams\<close> leaves the method before the client is called.\<close>

definition create_collection ::
  "('s, 'm) qdrant \<Rightarrow> 's provider \<Rightarrow> string \<Rightarrow> int \<Rightarrow> bool \<Rightarrow> (exn + bool) \<times> 's provider" where
  "create_collection Q p collection_name embedding_size do_reset =
     (case (if do_reset then delete_collection Q p collection_name else (Inr None, p)) of
        (Inl e, p1) \<Rightarrow> (Inl e, p1)
      | (Inr _, p1) \<Rightarrow>
          (case is_collection_existed Q p1 collection_name of
             Inl e \<Rightarrow> (Inl e, p1)
           | Inr existed \<Rightarrow>
               if \<not> existed then
                 (case client p1 of
                    None \<Rightarrow> (Inl AttributeError, p1)
                  | Some s \<Rightarrow>
                      (case VectorParams embedding_size (distance_method p1) of
                         Inl e \<Rightarrow> (Inl e, p1)
                       | Inr dense \<Rightarrow>
                           (case client_create_collection Q collection_name
                                   \<lparr>dense_params = dense, sparse_on_disk = False\<rparr> s of
                              (Inl e, s') \<Rightarrow> (Inl e, p1\<lparr>client := Some s'\<rparr>)
                            | (Inr _, s') \<Rightarrow> (Inr True, p1\<lparr>client := Some s'\<rparr>))))
               else (Inr False, p1)))"

subsection \<open>Batched insertion\<close>

text \<open>\<^verbatim>\<open>xs[n]\<close> for \<open>n \<ge> 0\<close>: \<^verbatim>\<open>IndexError\<close> beyond the end.\<close>

definition index :: "'a list \<Rightarrow> nat \<Rightarrow> exn + 'a" where
  "index xs n = (if n < length xs then Inr (xs ! n) else Inl IndexError)"

text \<open>\<^verbatim>\<open>xs[i:j]\<close> for \<open>0 \<le> i\<close>: a slice is clipped to the list, it never raises.\<close>

definition slice :: "'a list \<Rightarrow> nat \<Rightarrow> nat \<Rightarrow> 'a list" where
  "slice xs i j = take (j - i) (drop i xs)"

text \<open>Sequencing of computations that may raise.\<close>

definition bind :: "exn + 'a \<Rightarrow> ('a \<Rightarrow> exn + 'b) \<Rightarrow> exn + 'b" where
  "bind m f = (case m of Inl e \<Rightarrow> Inl e | Inr x \<Rightarrow> f x)"

text \<open>A list comprehension whose element expression may raise: the elements are
  evaluated from left to right and the first exception ends the evaluation.\<close>

fun comprehension :: "('a \<Rightarrow> exn + 'b) \<Rightarrow> 'a list \<Rightarrow> exn + 'b list" where
  "comprehension f [] = Inr []"
| "comprehension f (x # xs) =
     bind (f x) (\<lambda>y. bind (comprehension f xs) (\<lambda>ys. Inr (y # ys)))"

text \<open>\<^verbatim>\<open>range(0, n, step)\<close>: zero is refused as a step, a negative step counts down
  from 0 and yields nothing, a positive one yields \<open>0, step, 2 * step, ...\<close> below \<open>n\<close>.\<close>

definition range_step :: "nat \<Rightarrow> int \<Rightarrow> exn + nat list" where
  "range_step n step =
     (if step = 0 then Inl ValueError
      else if step < 0 then Inr []
      else Inr (map (\<lambda>k. k * nat step) [0..<(n + nat step - 1) div nat step]))"

text \<open>The element expression of the comprehension of lines 120 to 132, at position
  \<open>x\<close> of the five slices; keyword arguments are evaluated in the order written.\<close>

definition batch_record ::
  "point_id list \<Rightarrow> real list list \<Rightarrow> sparse_vector list \<Rightarrow> string list \<Rightarrow> 'm option list
     \<Rightarrow> nat \<Rightarrow> exn + 'm point" where
  "batch_record batch_record_ids batch_dense_vectors batch_sparse_vectors batch_texts batch_metadata x =
     bind (index batch_record_ids x) (\<lambda>rid.
     bind (index batch_dense_vectors x) (\<lambda>d.
     bind (index batch_sparse_vectors x) (\<lambda>sv.
     bind (index batch_texts x) (\<lambda>t.
     bind (index batch_metadata x) (\<lambda>m.
       Inr \<lparr>rec_id = rid, rec_dense = d, rec_sparse = sv,
            rec_payload = \<lparr>payload_text = t, payload_metadata = m\<rparr>\<rparr>)))))"

text \<open>The records of one batch (lines 114 to 132): five slices, then one record for
  each position of the slice of \<open>texts\<close>.\<close>

definition batch_records ::
  "string list \<Rightarrow> real list list \<Rightarrow> sparse_vector list \<Rightarrow> 'm option list \<Rightarrow> point_id list
     \<Rightarrow> nat \<Rightarrow> nat \<Rightarrow> exn + 'm point list" where
  "batch_records texts dense_vectors sparse_vectors metadata record_ids i batch_end =
     (let batch_texts = slice texts i batch_end;
          batch_dense_vectors = slice dense_vectors i batch_end;
          batch_sparse_vectors = slice sparse_vectors i batch_end;
          batch_metadata = slice metadata i batch_end;
          batch_record_ids = slice record_ids i batch_end
      in comprehension
           (batch_record batch_record_ids batch_dense_vectors batch_sparse_vectors
              batch_texts batch_metadata)
           [0..<length batch_texts])"

text \<open>The body of the \<^verbatim>\<open>try\<close>: \<^verbatim>\<open>self.client.upload_records(...)\<close>. On a provider that
  is not connected the attribute access raises inside the \<^verbatim>\<open>try\<close>.\<close>

definition upload_records ::
  "('s, 'm) qdrant \<Rightarrow> 's provider \<Rightarrow> string \<Rightarrow> 'm point list \<Rightarrow> exn option \<times> 's provider" where
  "upload_records Q p collection_name records =
     (case client p of
        None \<Rightarrow> (Some AttributeError, p)
      | Some s \<Rightarrow>
          (case client_upload_records Q collection_name records s of
             (r, s') \<Rightarrow> (r, p\<lparr>client := Some s'\<rparr>)))"

text \<open>The \<^verbatim>\<open>for\<close> loop over the batch offsets: an exception while the records
  are built leaves the method, an exception of the upload is caught and turned
  into \<^verbatim>\<open>False\<close>.\<close>

fun insert_batches ::
  "('s, 'm) qdrant \<Rightarrow> string \<Rightarrow> string list \<Rightarrow> real list list \<Rightarrow> sparse_vector list
     \<Rightarrow> 'm option list \<Rightarrow> point_id list \<Rightarrow> nat \<Rightarrow> nat list \<Rightarrow> 's provider
     \<Rightarrow> (exn + bool) \<times> 's provider" where
  "insert_batches Q name texts dense sparse metadata record_ids batch_size [] p = (Inr True, p)"
| "insert_batches Q name texts dense sparse metadata record_ids batch_size (i # is) p =
     (case batch_records texts dense sparse metadata record_ids i (i + batch_size) of
        Inl e \<Rightarrow> (Inl e, p)
      | Inr batch \<Rightarrow>
          (case upload_records Q p name batch of
             (Some e, p') \<Rightarrow> (Inr False, p')
           | (None, p') \<Rightarrow>
               insert_batches Q name texts dense sparse metadata record_ids batch_size is p'))"

text \<open>Lines 105 to 109: the defaults of the two optional lists.\<close>

definition default_metadata :: "string list \<Rightarrow> 'm option list option \<Rightarrow> 'm option list" where
  "default_metadata texts metadata =
     (case metadata of
        None \<Rightarrow> replicate (length texts) None
      | Some ms \<Rightarrow> ms)"

definition default_record_ids :: "string list \<Rightarrow> point_id list option \<Rightarrow> point_id list" where
  "default_record_ids texts record_ids =
     (case record_ids of
        None \<Rightarrow> map (\<lambda>n. IntId (int n)) [0..<length texts]
      | Some ids \<Rightarrow> ids)"

definition insert_many ::
  "('s, 'm) qdrant \<Rightarrow> 's provider \<Rightarrow> string \<Rightarrow> string list \<Rightarrow> real list list
     \<Rightarrow> sparse_vector list \<Rightarrow> 'm option list option \<Rightarrow> point_id list option \<Rightarrow> int
     \<Rightarrow> (exn + bool) \<times> 's provider" where
  "insert_many Q p collection_name texts dense_vectors sparse_vectors metadata record_ids batch_size =
     (case range_step (length texts) batch_size of
        Inl e \<Rightarrow> (Inl e, p)
      | Inr offsets \<Rightarrow>
          insert_batches Q collection_name texts dense_vectors sparse_vectors
            (default_metadata texts metadata) (default_record_ids texts record_ids)
            (nat batch_size) offsets p)"

subsection \<open>Search\<close>

definition retrieved :: "'m scored_point \<Rightarrow> retrieved_document" where
  "retrieved result = \<lparr>doc_score = sp_score result, doc_text = payload_text (sp_payload result)\<rparr>"

text \<open>\<^verbatim>\<open>query_points\<close> returns a \<^verbatim>\<open>QueryResponse\<close>: an object that is true and has
  the attribute \<^verbatim>\<open>points\<close>, so of the three tests of line 155 the length decides.\<close>

definition search_by_vector ::
  "('s, 'm) qdrant \<Rightarrow> 's provider \<Rightarrow> string \<Rightarrow> real list \<Rightarrow> int
     \<Rightarrow> exn + retrieved_document list option" where
  "search_by_vector Q p collection_name vector limit =
     (case client p of
        None \<Rightarrow> Inl AttributeError
      | Some s \<Rightarrow>
          (case client_query_points Q collection_name
                  \<lparr>q_query = Nearest vector, q_using = Some ''dense'',
                   q_prefetch = [], q_limit = limit\<rparr> s of
             Inl e \<Rightarrow> Inl e
           | Inr points \<Rightarrow>
               if length points = 0 then Inr None
               else Inr (Some (map retrieved points))))"

definition search_hybrid ::
  "('s, 'm) qdrant \<Rightarrow> 's provider \<Rightarrow> string \<Rightarrow> real list \<Rightarrow> sparse_vector \<Rightarrow> int \<Rightarrow> int \<Rightarrow> int
     \<Rightarrow> exn + retrieved_document list option" where
  "search_hybrid Q p collection_name dense_vector sparse_vector dense_limit sparse_limit limit =
     (let prefetches =
            [\<lparr>pf_query = Nearest dense_vector, pf_using = ''dense'', pf_limit = dense_limit\<rparr>,
             \<lparr>pf_query = NearestSparse sparse_vector, pf_using = ''sparse'',
              pf_limit = sparse_limit\<rparr>]
      in case client p of
           None \<Rightarrow> Inl AttributeError
         | Some s \<Rightarrow>
             (case client_query_points Q collection_name
                     \<lparr>q_query = FusionRRF, q_using = None,
                      q_prefetch = prefetches, q_limit = limit\<rparr> s of
                Inl e \<Rightarrow> Inl e
              | Inr points \<Rightarrow>
                  if length points = 0 then Inr None
                  else Inr (Some (map retrieved points))))"

subsection \<open>Observing the client\<close>

text \<open>The commands a provider can send to its client.\<close>

datatype 'm call =
    CreateCollection string collection_config
  | DeleteCollection string
  | UploadRecords string "'m point list"

text \<open>
  Any client can be run with a log at its side: \<open>traced Q\<close> behaves as \<open>Q\<close> and
  appends every command it receives, whether the command then succeeds or raises.
  What a provider method sends to its client is read off the log.
\<close>

definition traced :: "('s, 'm) qdrant \<Rightarrow> ('s \<times> 'm call list, 'm) qdrant" where
  "traced Q =
     \<lparr>QdrantClient = (\<lambda>path. case QdrantClient Q path of
                                Inl e \<Rightarrow> Inl e
                              | Inr s \<Rightarrow> Inr (s, [])),
      client_collection_exists = (\<lambda>name (s, calls). client_collection_exists Q name s),
      client_delete_collection = (\<lambda>name (s, calls).
         case client_delete_collection Q name s of
           (r, s') \<Rightarrow> (r, (s', calls @ [DeleteCollection name]))),
      client_create_collection = (\<lambda>name cfg (s, calls).
         case client_create_collection Q name cfg s of
           (r, s') \<Rightarrow> (r, (s', calls @ [CreateCollection name cfg]))),
      client_upload_records = (\<lambda>name records (s, calls).
         case client_upload_records Q name records s of
           (r, s') \<Rightarrow> (r, (s', calls @ [UploadRecords name records]))),
      client_query_points = (\<lambda>name request (s, calls). client_query_points Q name request s)\<rparr>"

text \<open>The provider without the log.\<close>

definition untraced :: "('s \<times> 'm call list) provider \<Rightarrow> 's provider" where
  "untraced p = \<lparr>client = map_option fst (client p), db_path = db_path p,
                  distance_method = distance_method p\<rparr>"

text \<open>The client state after the batches \<open>bs\<close> have been sent one after the other.\<close>

definition uploads_state :: "('s, 'm) qdrant \<Rightarrow> string \<Rightarrow> 'm point list list \<Rightarrow> 's \<Rightarrow> 's" where
  "uploads_state Q name bs s = foldl (\<lambda>s b. snd (client_upload_records Q name b s)) s bs"

text \<open>The records of the upload commands of a log, in the order sent.\<close>

fun uploaded :: "'m call list \<Rightarrow> 'm point list" where
  "uploaded [] = []"
| "uploaded (UploadRecords name records # calls) = records @ uploaded calls"
| "uploaded (c # calls) = uploaded calls"

subsection \<open>An in-memory client\<close>

text \<open>
  Modelled from the spec: a stand-in for the external client, which keeps its
  collections in a map, after sections 4.1 to 4.3: a collection is created empty
  under a new name and deleted by name; an upload needs the collection and dense
  vectors of the declared size, and a record replaces a stored one with the same id.
  It does not rank: a query is answered with the stored points in insertion order,
  each with score 0. The theorems hold for every client; this one is the concrete
  client on which they are run.
\<close>

record 'm collection =
  coll_config :: collection_config
  coll_points :: "'m point list"

type_synonym 'm store = "string \<Rightarrow> 'm collection option"

definition memory_client :: "('m store, 'm) qdrant" where
  "memory_client =
     \<lparr>QdrantClient = (\<lambda>path. Inr (\<lambda>name. None)),
      client_collection_exists = (\<lambda>name st. Inr (st name \<noteq> None)),
      client_delete_collection = (\<lambda>name st. (Inr True, st(name := None))),
      client_create_collection = (\<lambda>name cfg st.
         if st name \<noteq> None then (Inl (LibraryError ''collection exists''), st)
         else (Inr True, st(name \<mapsto> \<lparr>coll_config = cfg, coll_points = []\<rparr>))),
      client_upload_records = (\<lambda>name records st.
         case st name of
           None \<Rightarrow> (Some (LibraryError ''collection not found''), st)
         | Some c \<Rightarrow>
             if \<forall>r \<in> set records.
                  int (length (rec_dense r)) = vp_size (dense_params (coll_config c))
             then (None,
                   st(name \<mapsto> c\<lparr>coll_points :=
                        filter (\<lambda>q. rec_id q \<notin> rec_id ` set records) (coll_points c)
                        @ records\<rparr>))
             else (Some (LibraryError ''dimension mismatch''), st)),
      client_query_points = (\<lambda>name request st.
         case st name of
           None \<Rightarrow> Inl (LibraryError ''collection not found'')
         | Some c \<Rightarrow>
             Inr (take (nat (q_limit request))
                    (map (\<lambda>r. \<lparr>sp_score = 0, sp_payload = rec_payload r\<rparr>) (coll_points c))))\<rparr>"

subsection \<open>Vocabulary of the statements\<close>

text \<open>The record that belongs to position \<open>k\<close> of the five parallel lists.\<close>

definition record_at ::
  "string list \<Rightarrow> real list list \<Rightarrow> sparse_vector list \<Rightarrow> 'm option list \<Rightarrow> point_id list
     \<Rightarrow> nat \<Rightarrow> 'm point" where
  "record_at texts dense sparse metadata record_ids k =
     \<lparr>rec_id = record_ids ! k, rec_dense = dense ! k, rec_sparse = sparse ! k,
      rec_payload = \<lparr>payload_text = texts ! k, payload_metadata = metadata ! k\<rparr>\<rparr>"

text \<open>The length of the shortest of the four lists that run parallel to \<open>texts\<close>.\<close>

definition shortest ::
  "real list list \<Rightarrow> sparse_vector list \<Rightarrow> 'm option list \<Rightarrow> point_id list \<Rightarrow> nat" where
  "shortest dense sparse metadata record_ids =
     min (min (length dense) (length sparse)) (min (length metadata) (length record_ids))"

text \<open>The first \<open>j\<close> batches of \<open>bsz\<close> records each, for lists that reach that far.\<close>

definition leading_batches ::
  "string list \<Rightarrow> real list list \<Rightarrow> sparse_vector list \<Rightarrow> 'm option list \<Rightarrow> point_id list
     \<Rightarrow> nat \<Rightarrow> nat \<Rightarrow> 'm point list list" where
  "leading_batches texts dense sparse metadata record_ids bsz j =
     map (\<lambda>i. map (record_at texts dense sparse metadata record_ids) [i * bsz..<i * bsz + bsz])
       [0..<j]"

subsection \<open>Concrete inputs\<close>

definition example_enums :: distance_method_enums where
  "example_enums = \<lparr>COSINE_value = ''cosine'', DOT_value = ''dot''\<rparr>"

definition docs_config :: collection_config where
  "docs_config = \<lparr>dense_params = \<lparr>vp_size = 2, vp_distance = COSINE\<rparr>, sparse_on_disk = False\<rparr>"

definition empty_store :: "unit store" where
  "empty_store = (\<lambda>name. None)"

definition provider_on :: "'s \<Rightarrow> 's provider" where
  "provider_on s = \<lparr>client = Some s, db_path = ''db'', distance_method = Some COSINE\<rparr>"

definition sv0 :: sparse_vector where
  "sv0 = \<lparr>sv_indices = [7], sv_values = [1]\<rparr>"

definition store_with :: "unit point list \<Rightarrow> unit store" where
  "store_with ps = empty_store(''docs'' \<mapsto> \<lparr>coll_config = docs_config, coll_points = ps\<rparr>)"

definition rec_a :: "unit point" where
  "rec_a = \<lparr>rec_id = IntId 0, rec_dense = [1, 0], rec_sparse = sv0,
            rec_payload = \<lparr>payload_text = ''a'', payload_metadata = None\<rparr>\<rparr>"

definition rec_b :: "unit point" where
  "rec_b = \<lparr>rec_id = IntId 1, rec_dense = [0, 1], rec_sparse = sv0,
            rec_payload = \<lparr>payload_text = ''b'', payload_metadata = None\<rparr>\<rparr>"

definition rec_bad :: "unit point" where
  "rec_bad = \<lparr>rec_id = IntId 0, rec_dense = [1], rec_sparse = sv0,
              rec_payload = \<lparr>payload_text = ''c'', payload_metadata = None\<rparr>\<rparr>"

definition rec_c :: "unit point" where
  "rec_c = \<lparr>rec_id = IntId 2, rec_dense = [1], rec_sparse = sv0,
            rec_payload = \<lparr>payload_text = ''c'', payload_metadata = None\<rparr>\<rparr>"


section \<open>Lemmas on batch building and on the loop\<close>

lemma comprehension_ok:
  "(\<And>x. x \<in> set xs \<Longrightarrow> f x = Inr (g x)) \<Longrightarrow> comprehension f xs = Inr (map g xs)"
  by (induction xs) (simp_all add: bind_def)

lemma comprehension_Inr_D:
  "comprehension f xs = Inr ys \<Longrightarrow> x \<in> set xs \<Longrightarrow> \<exists>y. f x = Inr y"
  by (induction xs arbitrary: ys) (auto simp: bind_def split: sum.splits)

lemma comprehension_Inl_D:
  "comprehension f xs = Inl e \<Longrightarrow> \<exists>x \<in> set xs. f x = Inl e"
  by (induction xs) (auto simp: bind_def split: sum.splits)

lemma ceil_div_less_iff:
  fixes b :: nat
  assumes "0 < b"
  shows "j < (n + b - 1) div b \<longleftrightarrow> j * b < n"
proof -
  have "j < (n + b - 1) div b \<longleftrightarrow> Suc j \<le> (n + b - 1) div b" by auto
  also have "\<dots> \<longleftrightarrow> Suc j * b \<le> n + b - 1"
    using assms by (simp only: less_eq_div_iff_mult_less_eq)
  also have "\<dots> \<longleftrightarrow> j * b < n" using assms by auto
  finally show ?thesis .
qed

lemma batch_record_char:
  "batch_record bi bd bs bt bm x =
     (if x < length bi \<and> x < length bd \<and> x < length bs \<and> x < length bt \<and> x < length bm
      then Inr (record_at bt bd bs bm bi x) else Inl IndexError)"
  by (simp add: batch_record_def index_def bind_def record_at_def)

lemma comprehension_batch_record:
  "comprehension (batch_record bi bd bs bt bm) [0..<length bt] =
     (if length bt \<le> length bi \<and> length bt \<le> length bd \<and> length bt \<le> length bs
         \<and> length bt \<le> length bm
      then Inr (map (record_at bt bd bs bm bi) [0..<length bt])
      else Inl IndexError)"
proof (cases "length bt \<le> length bi \<and> length bt \<le> length bd \<and> length bt \<le> length bs
         \<and> length bt \<le> length bm")
  case True
  have "batch_record bi bd bs bt bm x = Inr (record_at bt bd bs bm bi x)" if "x \<in> set [0..<length bt]" for x
    using that True by (simp add: batch_record_char)
  then have "comprehension (batch_record bi bd bs bt bm) [0..<length bt]
               = Inr (map (record_at bt bd bs bm bi) [0..<length bt])"
    by (rule comprehension_ok)
  with True show ?thesis by simp
next
  case False
  then have pos: "0 < length bt" by auto
  have "comprehension (batch_record bi bd bs bt bm) [0..<length bt] = Inl IndexError"
  proof (cases "comprehension (batch_record bi bd bs bt bm) [0..<length bt]")
    case (Inl e)
    then obtain x where "batch_record bi bd bs bt bm x = Inl e" by (blast dest: comprehension_Inl_D)
    then have "e = IndexError" by (simp add: batch_record_char split: if_splits)
    with Inl show ?thesis by simp
  next
    case (Inr ys)
    moreover have "length bt - 1 \<in> set [0..<length bt]" using pos by simp
    ultimately obtain y where "batch_record bi bd bs bt bm (length bt - 1) = Inr y"
      by (blast dest: comprehension_Inr_D)
    then have "length bt - 1 < length bi \<and> length bt - 1 < length bd \<and> length bt - 1 < length bs
                 \<and> length bt - 1 < length bm"
      by (simp add: batch_record_char split: if_splits)
    with False pos have False by arith
    then show ?thesis ..
  qed
  with False show ?thesis by simp
qed

lemma slice_cover:
  assumes "0 < bsz" and "i < n"
  shows "min bsz (n - i) \<le> length (slice xs i (i + bsz)) \<longleftrightarrow> min (i + bsz) n \<le> length xs"
  using assms by (simp add: slice_def) arith

lemma record_at_slice:
  assumes "x < min bsz (length texts - i)"
    and "min (i + bsz) (length texts) \<le> shortest dense sparse metadata ids"
  shows "record_at (slice texts i (i + bsz)) (slice dense i (i + bsz)) (slice sparse i (i + bsz))
           (slice metadata i (i + bsz)) (slice ids i (i + bsz)) x
         = record_at texts dense sparse metadata ids (i + x)"
proof -
  have x: "x < bsz" "i + x < length texts" using assms(1) by auto
  then have "i + x < shortest dense sparse metadata ids" using assms(2) by arith
  then have "i + x < length dense" "i + x < length sparse" "i + x < length metadata" "i + x < length ids"
    by (simp_all add: shortest_def)
  with x show ?thesis by (simp add: record_at_def slice_def)
qed

lemma batch_records_char:
  assumes "0 < bsz" and "i < length texts"
  shows "batch_records texts dense sparse metadata ids i (i + bsz) =
           (if min (i + bsz) (length texts) \<le> shortest dense sparse metadata ids
            then Inr (map (record_at texts dense sparse metadata ids) [i..<min (i + bsz) (length texts)])
            else Inl IndexError)"
proof -
  define L where "L = min bsz (length texts - i)"
  have len: "length (slice texts i (i + bsz)) = L" by (simp add: slice_def L_def)
  have L: "i + L = min (i + bsz) (length texts)" using assms by (auto simp: L_def)
  have unfold: "batch_records texts dense sparse metadata ids i (i + bsz)
      = comprehension (batch_record (slice ids i (i + bsz)) (slice dense i (i + bsz)) (slice sparse i (i + bsz))
          (slice texts i (i + bsz)) (slice metadata i (i + bsz))) [0..<length (slice texts i (i + bsz))]"
    by (simp add: batch_records_def Let_def)
  have cover: "L \<le> length (slice xs i (i + bsz)) \<longleftrightarrow> min (i + bsz) (length texts) \<le> length xs"
    for xs :: "'z list"
    unfolding L_def using assms by (rule slice_cover)
  have ok: "(L \<le> length (slice ids i (i + bsz)) \<and> L \<le> length (slice dense i (i + bsz))
             \<and> L \<le> length (slice sparse i (i + bsz)) \<and> L \<le> length (slice metadata i (i + bsz)))
            \<longleftrightarrow> min (i + bsz) (length texts) \<le> shortest dense sparse metadata ids"
    unfolding cover shortest_def by auto
  have step: "batch_records texts dense sparse metadata ids i (i + bsz)
      = (if L \<le> length (slice ids i (i + bsz)) \<and> L \<le> length (slice dense i (i + bsz))
             \<and> L \<le> length (slice sparse i (i + bsz)) \<and> L \<le> length (slice metadata i (i + bsz))
         then Inr (map (record_at (slice texts i (i + bsz)) (slice dense i (i + bsz))
                 (slice sparse i (i + bsz)) (slice metadata i (i + bsz)) (slice ids i (i + bsz))) [0..<L])
         else Inl IndexError)"
    unfolding unfold comprehension_batch_record by (simp only: len)
  show ?thesis
  proof (cases "min (i + bsz) (length texts) \<le> shortest dense sparse metadata ids")
    case True
    have "map (record_at (slice texts i (i + bsz)) (slice dense i (i + bsz)) (slice sparse i (i + bsz))
                 (slice metadata i (i + bsz)) (slice ids i (i + bsz))) [0..<L]
          = map (record_at texts dense sparse metadata ids) [i..<i + L]"
      by (rule nth_equalityI) (simp_all add: record_at_slice [OF _ True] L_def)
    with True ok show ?thesis unfolding step L by simp
  next
    case False
    with ok show ?thesis unfolding step by simp
  qed
qed

lemma uploaded_append: "uploaded (xs @ ys) = uploaded xs @ uploaded ys"
  by (induction xs rule: uploaded.induct) simp_all

lemma upload_records_traced:
  "client p = Some (s, calls) \<Longrightarrow>
   upload_records (traced Q) p name b
     = (fst (client_upload_records Q name b s),
        p\<lparr>client := Some (snd (client_upload_records Q name b s), calls @ [UploadRecords name b])\<rparr>)"
  by (simp add: upload_records_def traced_def split: prod.splits)

lemma insert_batches_upload_raises:
  assumes "length B = Suc j" and "j < length os"
    and "\<forall>i \<le> j. batch_records texts dense sparse metadata ids (os ! i) (os ! i + bsz) = Inr (B ! i)"
    and "\<forall>i < j. fst (client_upload_records Q name (B ! i) (uploads_state Q name (take i B) s)) = None"
    and "fst (client_upload_records Q name (B ! j) (uploads_state Q name (take j B) s)) = Some e"
    and "client p = Some (s, calls)"
  shows "insert_batches (traced Q) name texts dense sparse metadata ids bsz os p
           = (Inr False,
              p\<lparr>client := Some (uploads_state Q name B s, calls @ map (UploadRecords name) B)\<rparr>)"
  using assms
proof (induction j arbitrary: B os s calls p)
  case 0
  then obtain b where B: "B = [b]" by (cases B) auto
  from 0 obtain k os' where os: "os = k # os'" by (cases os) auto
  from 0 B os have built: "batch_records texts dense sparse metadata ids k (k + bsz) = Inr b" by simp
  from 0 B have raised: "fst (client_upload_records Q name b s) = Some e"
    by (simp add: uploads_state_def)
  show ?case
    unfolding os B
    by (simp add: built upload_records_traced [OF "0.prems"(6)] raised uploads_state_def)
next
  case (Suc j)
  then obtain b B' where B: "B = b # B'" and lenB': "length B' = Suc j" by (cases B) auto
  from Suc obtain k os' where os: "os = k # os'" and len_os': "j < length os'" by (cases os) auto
  define s1 where "s1 = snd (client_upload_records Q name b s)"
  define p1 where "p1 = p\<lparr>client := Some (s1, calls @ [UploadRecords name b])\<rparr>"
  from Suc.prems(3) have built: "batch_records texts dense sparse metadata ids k (k + bsz) = Inr b"
    unfolding os B by (auto dest: spec [of _ 0])
  from Suc.prems(4) have fine: "fst (client_upload_records Q name b s) = None"
    unfolding B by (auto dest: spec [of _ 0] simp: uploads_state_def)
  have state: "uploads_state Q name (take (Suc i) B) s = uploads_state Q name (take i B') s1" for i
    by (simp add: B uploads_state_def s1_def)
  have h3: "\<forall>i \<le> j. batch_records texts dense sparse metadata ids (os' ! i) (os' ! i + bsz) = Inr (B' ! i)"
  proof (intro allI impI)
    fix i assume "i \<le> j"
    then have "Suc i \<le> Suc j" by simp
    with Suc.prems(3) have "batch_records texts dense sparse metadata ids (os ! Suc i) (os ! Suc i + bsz) = Inr (B ! Suc i)"
      by blast
    then show "batch_records texts dense sparse metadata ids (os' ! i) (os' ! i + bsz) = Inr (B' ! i)"
      by (simp add: os B)
  qed
  have h4: "\<forall>i < j. fst (client_upload_records Q name (B' ! i) (uploads_state Q name (take i B') s1)) = None"
  proof (intro allI impI)
    fix i assume "i < j"
    then have "Suc i < Suc j" by simp
    with Suc.prems(4) have "fst (client_upload_records Q name (B ! Suc i) (uploads_state Q name (take (Suc i) B) s)) = None"
      by blast
    then show "fst (client_upload_records Q name (B' ! i) (uploads_state Q name (take i B') s1)) = None"
      unfolding state by (simp add: B)
  qed
  have h5: "fst (client_upload_records Q name (B' ! j) (uploads_state Q name (take j B') s1)) = Some e"
    using Suc.prems(5) unfolding state by (simp add: B)
  have h6: "client p1 = Some (s1, calls @ [UploadRecords name b])" by (simp add: p1_def)
  have rest: "insert_batches (traced Q) name texts dense sparse metadata ids bsz os' p1
           = (Inr False,
              p1\<lparr>client := Some (uploads_state Q name B' s1,
                     (calls @ [UploadRecords name b]) @ map (UploadRecords name) B')\<rparr>)"
    by (rule Suc.IH [OF lenB' len_os' h3 h4 h5 h6])
  have final: "uploads_state Q name B s = uploads_state Q name B' s1"
    by (simp add: B uploads_state_def s1_def)
  show ?case
    unfolding os B
    by (simp add: built upload_records_traced [OF Suc.prems(6)] fine s1_def [symmetric] p1_def [symmetric]
          rest final [unfolded B]) (simp add: p1_def)
qed

lemma range_step_positive:
  "0 < step \<Longrightarrow>
   range_step n step = Inr (map (\<lambda>k. k * nat step) [0..<(n + nat step - 1) div nat step])"
  by (simp add: range_step_def)

lemma insert_batches_trace:
  fixes texts :: "string list" and metadata :: "'m option list"
  assumes n_def: "n = length texts"
    and R_def: "R = record_at texts dense sparse metadata ids"
    and sh_def: "sh = shortest dense sparse metadata ids"
    and m_def: "m = (n + bsz - 1) div bsz"
    and pos: "0 < bsz"
    and "client p = Some (s, calls)"
    and "uploaded calls = map R [0..<min (a * bsz) n]"
    and "sh < n \<longrightarrow> a \<le> sh div bsz"
    and "insert_batches (traced Q) name texts dense sparse metadata ids bsz
           (map (\<lambda>k. k * bsz) [a..<m]) p = (r, p')"
  shows "\<exists>s' calls' len. client p' = Some (s', calls') \<and> uploaded calls' = map R [0..<len] \<and> len \<le> n \<and>
           (r = Inr True \<longrightarrow> len = n \<and> n \<le> sh) \<and>
           (\<forall>e. r = Inl e \<longrightarrow> e = IndexError \<and> sh < n \<and> len = (sh div bsz) * bsz) \<and>
           (sh < n \<longrightarrow> len \<le> (sh div bsz) * bsz)"
  using assms(6-)
proof (induction "m - a" arbitrary: a p s calls)
  case 0
  then have ge: "\<not> a < m" by simp
  then have an: "n \<le> a * bsz" using ceil_div_less_iff [OF pos, of a n] by (simp add: m_def)
  from 0 ge have r: "r = Inr True" "p' = p" by simp_all
  have nsh: "n \<le> sh"
  proof (rule ccontr)
    assume "\<not> n \<le> sh"
    then have "sh < n" by simp
    with "0.prems"(3) have "a \<le> sh div bsz" by simp
    then have "a * bsz \<le> sh" using pos by (simp add: less_eq_div_iff_mult_less_eq)
    with an \<open>sh < n\<close> show False by simp
  qed
  from an have "min (a * bsz) n = n" by simp
  with "0.prems"(1,2) r nsh show ?case by auto
next
  case (Suc d)
  then have lt: "a < m" by simp
  then have an: "a * bsz < n" using ceil_div_less_iff [OF pos, of a n] by (simp add: m_def)
  have upt: "[a..<m] = a # [Suc a..<m]"
    using lt by (simp add: upt_conv_Cons)
  have min_a: "min (a * bsz) n = a * bsz" using an by simp
  define top where "top = min (a * bsz + bsz) n"
  have top: "a * bsz \<le> top" "top \<le> n" "top = min (Suc a * bsz) n" using an by (simp_all add: top_def add.commute)
  have char: "batch_records texts dense sparse metadata ids (a * bsz) (a * bsz + bsz)
                = (if top \<le> sh then Inr (map R [a * bsz..<top]) else Inl IndexError)"
    using batch_records_char [OF pos, of "a * bsz" texts dense sparse metadata ids] an
    by (simp add: n_def R_def sh_def top_def)
  show ?case
  proof (cases "top \<le> sh")
    case False
    with Suc.prems(4) char have r: "r = Inl IndexError" "p' = p" by (simp_all add: upt)
    from False top have shn: "sh < n" by simp
    with Suc.prems(3) have le: "a \<le> sh div bsz" by simp
    from False shn have "sh < a * bsz + bsz" by (simp add: top_def)
    then have "sh < Suc a * bsz" by (simp add: add.commute)
    then have "sh div bsz < Suc a" using pos by (simp add: div_less_iff_less_mult)
    with le have "sh div bsz = a" by simp
    with Suc.prems(1,2) r shn min_a an show ?thesis by auto
  next
    case True
    define b where "b = map R [a * bsz..<top]"
    define s1 where "s1 = snd (client_upload_records Q name b s)"
    define calls1 where "calls1 = calls @ [UploadRecords name b]"
    define p1 where "p1 = p\<lparr>client := Some (s1, calls1)\<rparr>"
    have built: "batch_records texts dense sparse metadata ids (a * bsz) (a * bsz + bsz) = Inr b"
      using char True by (simp add: b_def)
    have up: "upload_records (traced Q) p name b = (fst (client_upload_records Q name b s), p1)"
      by (simp add: upload_records_traced [OF Suc.prems(1)] p1_def s1_def calls1_def)
    have "[0..<top] = [0..<a * bsz] @ [a * bsz..<top]"
      using top(1) by (metis le_add_diff_inverse upt_add_eq_append zero_le)
    then have log: "uploaded calls1 = map R [0..<top]"
      by (simp add: calls1_def uploaded_append Suc.prems(2) min_a b_def)
    have client1: "client p1 = Some (s1, calls1)" by (simp add: p1_def)
    have bound: "top \<le> (sh div bsz) * bsz \<and> Suc a \<le> sh div bsz" if "sh < n"
    proof -
      from that True have "top = a * bsz + bsz" by (simp add: top_def)
      with True have "Suc a * bsz \<le> sh" by (simp add: add.commute)
      then have "Suc a \<le> sh div bsz" using pos by (simp add: less_eq_div_iff_mult_less_eq)
      then have "Suc a * bsz \<le> (sh div bsz) * bsz" by (rule mult_le_mono1)
      with \<open>top = a * bsz + bsz\<close> \<open>Suc a \<le> sh div bsz\<close> show ?thesis by (simp add: add.commute)
    qed
    show ?thesis
    proof (cases "fst (client_upload_records Q name b s)")
      case (Some e)
      with Suc.prems(4) built up have r: "r = Inr False" "p' = p1" by (simp_all add: upt)
      with client1 log top(2) bound show ?thesis by auto
    next
      case None
      with Suc.prems(4) built up
      have rest: "insert_batches (traced Q) name texts dense sparse metadata ids bsz
           (map (\<lambda>k. k * bsz) [Suc a..<m]) p1 = (r, p')"
        by (simp add: upt)
      have d: "d = m - Suc a" using Suc.hyps(2) by simp
      have log': "uploaded calls1 = map R [0..<min (Suc a * bsz) n]" using log top(3) by simp
      have le': "sh < n \<longrightarrow> Suc a \<le> sh div bsz" using bound by simp
      show ?thesis by (rule Suc.hyps(1) [OF d client1 log' le' rest])
    qed
  qed
qed

lemma provider_client_same: "client p = Some x \<Longrightarrow> p\<lparr>client := Some x\<rparr> = p"
  by (cases p) auto

lemma insert_batches_build_raises:
  assumes "length B = j" and "j < length os"
    and "\<forall>i < j. batch_records texts dense sparse metadata ids (os ! i) (os ! i + bsz) = Inr (B ! i)"
    and "batch_records texts dense sparse metadata ids (os ! j) (os ! j + bsz) = Inl e"
    and "\<forall>i < j. fst (client_upload_records Q name (B ! i) (uploads_state Q name (take i B) s)) = None"
    and "client p = Some (s, calls)"
  shows "insert_batches (traced Q) name texts dense sparse metadata ids bsz os p
           = (Inl e,
              p\<lparr>client := Some (uploads_state Q name B s, calls @ map (UploadRecords name) B)\<rparr>)"
  using assms
proof (induction j arbitrary: B os s calls p)
  case 0
  then have B: "B = []" by simp
  from 0 obtain k os' where os: "os = k # os'" by (cases os) auto
  from 0 os have failed: "batch_records texts dense sparse metadata ids k (k + bsz) = Inl e" by simp
  show ?case
    unfolding os B
    by (simp add: failed uploads_state_def provider_client_same [OF "0.prems"(6)])
next
  case (Suc j)
  then obtain b B' where B: "B = b # B'" and lenB': "length B' = j" by (cases B) auto
  from Suc obtain k os' where os: "os = k # os'" and len_os': "j < length os'" by (cases os) auto
  define s1 where "s1 = snd (client_upload_records Q name b s)"
  define p1 where "p1 = p\<lparr>client := Some (s1, calls @ [UploadRecords name b])\<rparr>"
  from Suc.prems(3) have built: "batch_records texts dense sparse metadata ids k (k + bsz) = Inr b"
    unfolding os B by (auto dest: spec [of _ 0])
  from Suc.prems(5) have fine: "fst (client_upload_records Q name b s) = None"
    unfolding B by (auto dest: spec [of _ 0] simp: uploads_state_def)
  have state: "uploads_state Q name (take (Suc i) B) s = uploads_state Q name (take i B') s1" for i
    by (simp add: B uploads_state_def s1_def)
  have h3: "\<forall>i < j. batch_records texts dense sparse metadata ids (os' ! i) (os' ! i + bsz) = Inr (B' ! i)"
  proof (intro allI impI)
    fix i assume "i < j"
    then have "Suc i < Suc j" by simp
    with Suc.prems(3)
    have "batch_records texts dense sparse metadata ids (os ! Suc i) (os ! Suc i + bsz) = Inr (B ! Suc i)"
      by blast
    then show "batch_records texts dense sparse metadata ids (os' ! i) (os' ! i + bsz) = Inr (B' ! i)"
      by (simp add: os B)
  qed
  have h4: "batch_records texts dense sparse metadata ids (os' ! j) (os' ! j + bsz) = Inl e"
    using Suc.prems(4) by (simp add: os)
  have h5: "\<forall>i < j. fst (client_upload_records Q name (B' ! i) (uploads_state Q name (take i B') s1)) = None"
  proof (intro allI impI)
    fix i assume "i < j"
    then have "Suc i < Suc j" by simp
    with Suc.prems(5)
    have "fst (client_upload_records Q name (B ! Suc i) (uploads_state Q name (take (Suc i) B) s)) = None"
      by blast
    then show "fst (client_upload_records Q name (B' ! i) (uploads_state Q name (take i B') s1)) = None"
      unfolding state by (simp add: B)
  qed
  have h6: "client p1 = Some (s1, calls @ [UploadRecords name b])" by (simp add: p1_def)
  have rest: "insert_batches (traced Q) name texts dense sparse metadata ids bsz os' p1
           = (Inl e,
              p1\<lparr>client := Some (uploads_state Q name B' s1,
                     (calls @ [UploadRecords name b]) @ map (UploadRecords name) B')\<rparr>)"
    by (rule Suc.IH [OF lenB' len_os' h3 h4 h5 h6])
  have final: "uploads_state Q name B s = uploads_state Q name B' s1"
    by (simp add: B uploads_state_def s1_def)
  show ?case
    unfolding os B
    by (simp add: built upload_records_traced [OF Suc.prems(6)] fine s1_def [symmetric] p1_def [symmetric]
          rest final [unfolded B]) (simp add: p1_def)
qed

lemma first_failure:
  fixes ok :: "nat \<Rightarrow> bool"
  assumes "\<not> (\<forall>i < j. ok i)"
  shows "\<exists>i < j. (\<forall>i' < i. ok i') \<and> \<not> ok i"
proof -
  from assms obtain i where i: "i < j" "\<not> ok i" by blast
  define l where "l = (LEAST i. \<not> ok i)"
  have "\<not> ok l" unfolding l_def using i(2) by (rule LeastI)
  moreover have "l \<le> i" unfolding l_def using i(2) by (rule Least_le)
  moreover have "ok i'" if "i' < l" for i'
    using that not_less_Least unfolding l_def by blast
  ultimately show ?thesis using i(1) by (intro exI [of _ l]) auto
qed

lemma short_list_batches:
  fixes texts :: "string list" and metadata :: "'m option list"
  assumes pos: "0 < bsz"
    and short: "shortest dense sparse metadata ids < length texts"
  defines "j \<equiv> shortest dense sparse metadata ids div bsz"
  defines "B \<equiv> leading_batches texts dense sparse metadata ids bsz j"
  defines "os \<equiv> map (\<lambda>k. k * bsz) [0..<(length texts + bsz - 1) div bsz]"
  shows "length B = j" and "j < length os"
    and "\<forall>i < j. batch_records texts dense sparse metadata ids (os ! i) (os ! i + bsz) = Inr (B ! i)"
    and "batch_records texts dense sparse metadata ids (os ! j) (os ! j + bsz) = Inl IndexError"
proof -
  let ?sh = "shortest dense sparse metadata ids"
  have low: "j * bsz \<le> ?sh" unfolding j_def by simp
  have high: "?sh < j * bsz + bsz"
    unfolding j_def using dividend_less_div_times [OF pos, of ?sh] by (simp add: add.commute)
  from low short have jn: "j * bsz < length texts" by simp
  then have jm: "j < (length texts + bsz - 1) div bsz" by (simp only: ceil_div_less_iff [OF pos])
  show "length B = j" by (simp add: B_def leading_batches_def)
  show "j < length os" using jm by (simp add: os_def)
  have nth: "os ! i = i * bsz" if "i \<le> j" for i
    using that jm by (simp add: os_def)
  show "\<forall>i < j. batch_records texts dense sparse metadata ids (os ! i) (os ! i + bsz) = Inr (B ! i)"
  proof (intro allI impI)
    fix i assume i: "i < j"
    then have "Suc i * bsz \<le> j * bsz" by (intro mult_le_mono1) simp
    then have top: "i * bsz + bsz \<le> ?sh" using low by (simp add: add.commute)
    with short have "i * bsz < length texts" "min (i * bsz + bsz) (length texts) = i * bsz + bsz"
      using pos by simp_all
    with top have "batch_records texts dense sparse metadata ids (i * bsz) (i * bsz + bsz)
                     = Inr (map (record_at texts dense sparse metadata ids) [i * bsz..<i * bsz + bsz])"
      by (simp add: batch_records_char [OF pos])
    with i show "batch_records texts dense sparse metadata ids (os ! i) (os ! i + bsz) = Inr (B ! i)"
      by (simp add: nth B_def leading_batches_def)
  qed
  have "\<not> min (j * bsz + bsz) (length texts) \<le> ?sh" using high short by simp
  with jn have "batch_records texts dense sparse metadata ids (j * bsz) (j * bsz + bsz) = Inl IndexError"
    by (simp add: batch_records_char [OF pos])
  then show "batch_records texts dense sparse metadata ids (os ! j) (os ! j + bsz) = Inl IndexError"
    by (simp add: nth)
qed

subsection \<open>A traced client behaves as the client itself\<close>

text \<open>Outcome and client state of a method are the same with and without the log.\<close>

lemma untraced_update:
  "untraced (p\<lparr>client := Some (s, calls)\<rparr>) = (untraced p)\<lparr>client := Some s\<rparr>"
  by (simp add: untraced_def)

lemma is_collection_existed_untraced:
  "is_collection_existed Q (untraced p) name = is_collection_existed (traced Q) p name"
  by (cases "client p") (auto simp: is_collection_existed_def untraced_def traced_def)

lemma delete_collection_untraced:
  "delete_collection Q (untraced p) name = map_prod id untraced (delete_collection (traced Q) p name)"
proof (cases "client p")
  case None
  then show ?thesis
    by (simp add: delete_collection_def is_collection_existed_def untraced_def)
next
  case (Some st)
  obtain s calls where st: "st = (s, calls)" by (cases st)
  have c: "client (untraced p) = Some s" using Some st by (simp add: untraced_def)
  show ?thesis
    using Some st c
    by (auto simp: delete_collection_def is_collection_existed_def traced_def untraced_update
          split: sum.splits prod.splits)
qed

lemma create_collection_untraced:
  "create_collection Q (untraced p) name n reset
     = map_prod id untraced (create_collection (traced Q) p name n reset)"
proof -
  obtain r0 p0 where
    d: "(if reset then delete_collection (traced Q) p name else (Inr None, p)) = (r0, p0)"
    by (cases "if reset then delete_collection (traced Q) p name else (Inr None, p)")
  then have d': "(if reset then delete_collection Q (untraced p) name else (Inr None, untraced p))
                   = (r0, untraced p0)"
    by (auto simp: delete_collection_untraced split: if_splits)
  have dm: "distance_method (untraced p0) = distance_method p0" by (simp add: untraced_def)
  show ?thesis
  proof (cases "client p0")
    case None
    then have "client (untraced p0) = None" by (simp add: untraced_def)
    with None show ?thesis
      unfolding create_collection_def d d'
      by (auto simp: is_collection_existed_def split: sum.splits)
  next
    case (Some st)
    obtain s calls where st: "st = (s, calls)" by (cases st)
    have c: "client (untraced p0) = Some s" using Some st by (simp add: untraced_def)
    show ?thesis
      unfolding create_collection_def d d'
      using Some st c
      by (auto simp: is_collection_existed_def traced_def untraced_update dm
            split: sum.splits prod.splits)
  qed
qed

lemma upload_records_untraced:
  "upload_records Q (untraced p) name b = map_prod id untraced (upload_records (traced Q) p name b)"
proof (cases "client p")
  case None
  then show ?thesis by (simp add: upload_records_def untraced_def)
next
  case (Some st)
  obtain s calls where st: "st = (s, calls)" by (cases st)
  have c: "client (untraced p) = Some s" using Some st by (simp add: untraced_def)
  show ?thesis
    using Some st c
    by (auto simp: upload_records_def traced_def untraced_update split: prod.splits)
qed

lemma insert_batches_untraced:
  "insert_batches Q name texts dense sparse metadata ids bsz os (untraced p)
     = map_prod id untraced (insert_batches (traced Q) name texts dense sparse metadata ids bsz os p)"
proof (induction os arbitrary: p)
  case Nil
  show ?case by simp
next
  case (Cons k os)
  show ?case
  proof (cases "batch_records texts dense sparse metadata ids k (k + bsz)")
    case (Inl e)
    then show ?thesis by simp
  next
    case (Inr b)
    obtain r p1 where up: "upload_records (traced Q) p name b = (r, p1)"
      by (cases "upload_records (traced Q) p name b")
    then have up': "upload_records Q (untraced p) name b = (r, untraced p1)"
      by (simp add: upload_records_untraced)
    show ?thesis
      by (cases r) (simp_all add: Inr up up' Cons.IH)
  qed
qed

lemma insert_many_untraced:
  "insert_many Q (untraced p) name texts dense sparse metadata record_ids batch_size
     = map_prod id untraced
         (insert_many (traced Q) p name texts dense sparse metadata record_ids batch_size)"
  by (cases "range_step (length texts) batch_size")
     (simp_all add: insert_many_def insert_batches_untraced)

subsection \<open>The in-memory client\<close>

lemmas fixtures = store_with_def rec_a_def rec_b_def rec_c_def rec_bad_def empty_store_def
  docs_config_def provider_on_def sv0_def example_enums_def

lemma provider_on_update: "(provider_on x)\<lparr>client := Some y\<rparr> = provider_on y"
  by (simp add: provider_on_def)

subsection \<open>Runs on concrete inputs\<close>

lemmas run_simps = insert_many_def range_step_def batch_records_def batch_record_def Let_def
  slice_def index_def bind_def default_metadata_def default_record_ids_def upload_records_def
  traced_def memory_client_def upt_rec

lemma short_list_run:
  "insert_many (traced memory_client) (provider_on (store_with [], [])) ''docs''
     [''a'', ''b''] [[1, 0]] [sv0, sv0] None None 1
   = (Inl IndexError, provider_on (store_with [rec_a], [UploadRecords ''docs'' [rec_a]]))"
  by (simp add: run_simps fixtures)


lemma batch0: "batch_records [''a'', ''b'', ''c''] [[1, 0], [0, 1], [1]] [sv0, sv0, sv0]
     (default_metadata [''a'', ''b'', ''c''] None) (default_record_ids [''a'', ''b'', ''c''] None) 0 2
   = Inr [rec_a, rec_b]"
  by (simp add: run_simps fixtures)

lemma batch1: "batch_records [''a'', ''b'', ''c''] [[1, 0], [0, 1], [1]] [sv0, sv0, sv0]
     (default_metadata [''a'', ''b'', ''c''] None) (default_record_ids [''a'', ''b'', ''c''] None) 2 4
   = Inr [rec_c]"
  by (simp add: run_simps fixtures)

lemma upload0: "client_upload_records memory_client ''docs'' [rec_a, rec_b] (store_with [])
   = (None, store_with [rec_a, rec_b])"
  by (simp add: memory_client_def fixtures)

lemma upload1: "client_upload_records memory_client ''docs'' [rec_c] (store_with [rec_a, rec_b])
   = (Some (LibraryError ''dimension mismatch''), store_with [rec_a, rec_b])"
  by (simp add: memory_client_def fixtures)

lemma short_list_B:
  "leading_batches [''a'', ''b''] [[1, 0]] [sv0, sv0]
     (default_metadata [''a'', ''b''] None) (default_record_ids [''a'', ''b''] None) 1 1 = [[rec_a]]"
  by (simp add: leading_batches_def record_at_def default_metadata_def default_record_ids_def
        fixtures upt_rec)

lemma bad_list_B:
  "leading_batches [''c'', ''a''] [[1]] [sv0, sv0]
     (default_metadata [''c'', ''a''] None) (default_record_ids [''c'', ''a''] None) 1 1 = [[rec_bad]]"
  by (simp add: leading_batches_def record_at_def default_metadata_def default_record_ids_def
        fixtures upt_rec)

lemma upload_a: "client_upload_records memory_client ''docs'' [rec_a] (store_with [])
   = (None, store_with [rec_a])"
  by (simp add: memory_client_def fixtures)

lemma upload_bad: "client_upload_records memory_client ''docs'' [rec_bad] (store_with [])
   = (Some (LibraryError ''dimension mismatch''), store_with [])"
  by (simp add: memory_client_def fixtures)

section \<open>Collections\<close>

text \<open>
  Claim C7. When the existence check answers that the collection does not exist,
  \<open>delete_collection\<close> returns Python's \<^verbatim>\<open>None\<close>, raises nothing and leaves the provider
  and its client as they were. When the collection exists, the client's
  \<^verbatim>\<open>delete_collection\<close> is run: its result, or its exception, is the result of the
  method, and its state is the client state afterwards.
\<close>

theorem delete_collection_absent:
  "(is_collection_existed Q p name = Inr False \<longrightarrow> delete_collection Q p name = (Inr None, p)) \<and>
   (\<forall>s. client p = Some s \<and> client_collection_exists Q name s = Inr True \<longrightarrow>
      fst (delete_collection Q p name) = map_sum id Some (fst (client_delete_collection Q name s)) \<and>
      snd (delete_collection Q p name) = p\<lparr>client := Some (snd (client_delete_collection Q name s))\<rparr>)"
  by (auto simp: delete_collection_def is_collection_existed_def split: sum.splits prod.splits option.splits)

theorem delete_collection_absent_witness:
  "is_collection_existed memory_client (provider_on (store_with [])) ''other'' = Inr False \<and>
   delete_collection memory_client (provider_on (store_with [])) ''other'' = (Inr None, provider_on (store_with [])) \<and>
   client (provider_on (store_with [])) = Some (store_with []) \<and>
   client_collection_exists memory_client ''docs'' (store_with []) = Inr True \<and>
   delete_collection memory_client (provider_on (store_with [])) ''docs''
     = (Inr (Some True), provider_on ((store_with [])(''docs'' := None)))"
proof -
  have absent: "is_collection_existed memory_client (provider_on (store_with [])) ''other'' = Inr False"
    by (simp add: is_collection_existed_def memory_client_def provider_on_def store_with_def empty_store_def)
  have connected: "client (provider_on (store_with [])) = Some (store_with [])"
    by (simp add: provider_on_def)
  have present: "client_collection_exists memory_client ''docs'' (store_with []) = Inr True"
    by (simp add: memory_client_def store_with_def)
  have gone: "client_delete_collection memory_client ''docs'' (store_with []) = (Inr True, (store_with [])(''docs'' := None))"
    by (simp add: memory_client_def)
  note t1 = delete_collection_absent [of memory_client "provider_on (store_with [])" "''other''"]
  note t2 = delete_collection_absent [of memory_client "provider_on (store_with [])" "''docs''"]
  from t1 absent have a: "delete_collection memory_client (provider_on (store_with [])) ''other'' = (Inr None, provider_on (store_with []))"
    by blast
  from t2 connected present
  have "fst (delete_collection memory_client (provider_on (store_with [])) ''docs'') = map_sum id Some (fst (client_delete_collection memory_client ''docs'' (store_with []))) \<and>
      snd (delete_collection memory_client (provider_on (store_with [])) ''docs'') = (provider_on (store_with []))\<lparr>client := Some (snd (client_delete_collection memory_client ''docs'' (store_with [])))\<rparr>"
    by blast
  then have b: "delete_collection memory_client (provider_on (store_with [])) ''docs''
     = (Inr (Some True), provider_on ((store_with [])(''docs'' := None)))"
    by (simp add: gone provider_on_def prod_eq_iff)
  from absent a connected present b show ?thesis by blast
qed

text \<open>
  Claim C3. Let the provider have a distance metric and the collection not exist, let
  the client create it when asked, and let it exist afterwards. The first
  \<open>create_collection\<close> without reset returns \<^verbatim>\<open>True\<close>, having sent one creation command.
  A second one without reset returns \<^verbatim>\<open>False\<close> and changes nothing: it sends no
  command and leaves provider and client as they were. A second one with reset, where
  the client deletes the collection and then creates it again, returns \<^verbatim>\<open>True\<close>, having
  sent the deletion first and the creation after it.
\<close>

theorem create_collection_twice:
  assumes "client p = Some (s, calls)"
    and "distance_method p = Some d"
    and "client_collection_exists Q name s = Inr False"
    and "client_create_collection Q name
           \<lparr>dense_params = \<lparr>vp_size = n, vp_distance = d\<rparr>, sparse_on_disk = False\<rparr> s = (Inr r1, s1)"
    and "client_collection_exists Q name s1 = Inr True"
  shows "create_collection (traced Q) p name n False
           = (Inr True,
              p\<lparr>client := Some (s1, calls @ [CreateCollection name
                     \<lparr>dense_params = \<lparr>vp_size = n, vp_distance = d\<rparr>, sparse_on_disk = False\<rparr>])\<rparr>) \<and>
         create_collection (traced Q)
             (p\<lparr>client := Some (s1, calls @ [CreateCollection name
                     \<lparr>dense_params = \<lparr>vp_size = n, vp_distance = d\<rparr>, sparse_on_disk = False\<rparr>])\<rparr>)
             name n' False
           = (Inr False,
              p\<lparr>client := Some (s1, calls @ [CreateCollection name
                     \<lparr>dense_params = \<lparr>vp_size = n, vp_distance = d\<rparr>, sparse_on_disk = False\<rparr>])\<rparr>) \<and>
         (\<forall>r2 s2 r3 s3.
            client_delete_collection Q name s1 = (Inr r2, s2) \<and>
            client_collection_exists Q name s2 = Inr False \<and>
            client_create_collection Q name
              \<lparr>dense_params = \<lparr>vp_size = n', vp_distance = d\<rparr>, sparse_on_disk = False\<rparr> s2 = (Inr r3, s3)
            \<longrightarrow>
            create_collection (traced Q)
                (p\<lparr>client := Some (s1, calls @ [CreateCollection name
                     \<lparr>dense_params = \<lparr>vp_size = n, vp_distance = d\<rparr>, sparse_on_disk = False\<rparr>])\<rparr>)
                name n' True
              = (Inr True,
                 p\<lparr>client := Some (s3, calls @
                      [CreateCollection name
                         \<lparr>dense_params = \<lparr>vp_size = n, vp_distance = d\<rparr>, sparse_on_disk = False\<rparr>,
                       DeleteCollection name,
                       CreateCollection name
                         \<lparr>dense_params = \<lparr>vp_size = n', vp_distance = d\<rparr>, sparse_on_disk = False\<rparr>])\<rparr>))"
proof -
  define p1 where "p1 = p\<lparr>client := Some (s1, calls @ [CreateCollection name
                     \<lparr>dense_params = \<lparr>vp_size = n, vp_distance = d\<rparr>, sparse_on_disk = False\<rparr>])\<rparr>"
  have first: "create_collection (traced Q) p name n False = (Inr True, p1)"
    using assms(1-4)
    by (simp add: create_collection_def is_collection_existed_def traced_def VectorParams_def
          p1_def)
  have second: "create_collection (traced Q) p1 name n' False = (Inr False, p1)"
    using assms(5)
    by (simp add: create_collection_def is_collection_existed_def traced_def p1_def)
  have third: "create_collection (traced Q) p1 name n' True
              = (Inr True,
                 p\<lparr>client := Some (s3, calls @
                      [CreateCollection name
                         \<lparr>dense_params = \<lparr>vp_size = n, vp_distance = d\<rparr>, sparse_on_disk = False\<rparr>,
                       DeleteCollection name,
                       CreateCollection name
                         \<lparr>dense_params = \<lparr>vp_size = n', vp_distance = d\<rparr>, sparse_on_disk = False\<rparr>])\<rparr>)"
    if "client_delete_collection Q name s1 = (Inr r2, s2)"
      and "client_collection_exists Q name s2 = Inr False"
      and "client_create_collection Q name
              \<lparr>dense_params = \<lparr>vp_size = n', vp_distance = d\<rparr>, sparse_on_disk = False\<rparr> s2 = (Inr r3, s3)"
    for r2 s2 r3 s3
    using that assms(2,5)
    by (simp add: create_collection_def delete_collection_def is_collection_existed_def traced_def
          VectorParams_def p1_def)
  from first second third show ?thesis
    unfolding p1_def by blast
qed

theorem create_collection_twice_witness:
  "client (provider_on (empty_store, [] :: unit call list)) = Some (empty_store, []) \<and>
   distance_method (provider_on (empty_store, [] :: unit call list)) = Some COSINE \<and>
   client_collection_exists memory_client ''docs'' empty_store = Inr False \<and>
   client_create_collection memory_client ''docs''
     \<lparr>dense_params = \<lparr>vp_size = 2, vp_distance = COSINE\<rparr>, sparse_on_disk = False\<rparr> empty_store
     = (Inr True, store_with []) \<and>
   client_collection_exists memory_client ''docs'' (store_with []) = Inr True \<and>
   create_collection (traced memory_client) (provider_on (empty_store, [])) ''docs'' 2 False
     = (Inr True, provider_on (store_with [], [CreateCollection ''docs'' docs_config])) \<and>
   create_collection (traced memory_client)
       (provider_on (store_with [], [CreateCollection ''docs'' docs_config])) ''docs'' 3 False
     = (Inr False, provider_on (store_with [], [CreateCollection ''docs'' docs_config])) \<and>
   create_collection (traced memory_client)
       (provider_on (store_with [], [CreateCollection ''docs'' docs_config])) ''docs'' 3 True
     = (Inr True,
        provider_on (empty_store(''docs'' \<mapsto>
            \<lparr>coll_config = \<lparr>dense_params = \<lparr>vp_size = 3, vp_distance = COSINE\<rparr>,
                            sparse_on_disk = False\<rparr>,
             coll_points = []\<rparr>),
          [CreateCollection ''docs'' docs_config, DeleteCollection ''docs'',
           CreateCollection ''docs''
             \<lparr>dense_params = \<lparr>vp_size = 3, vp_distance = COSINE\<rparr>, sparse_on_disk = False\<rparr>]))"
proof -
  have h1: "client (provider_on (empty_store, [] :: unit call list)) = Some (empty_store, [])"
    and h2: "distance_method (provider_on (empty_store, [] :: unit call list)) = Some COSINE"
    by (simp_all add: provider_on_def)
  have h3: "client_collection_exists memory_client ''docs'' empty_store = Inr False"
    by (simp add: memory_client_def empty_store_def)
  have h4: "client_create_collection memory_client ''docs''
     \<lparr>dense_params = \<lparr>vp_size = 2, vp_distance = COSINE\<rparr>, sparse_on_disk = False\<rparr> empty_store
     = (Inr True, store_with [])"
    by (simp add: memory_client_def fixtures)
  have h5: "client_collection_exists memory_client ''docs'' (store_with []) = Inr True"
    by (simp add: memory_client_def fixtures)
  have d: "client_delete_collection memory_client ''docs'' (store_with []) = (Inr True, empty_store)"
    by (simp add: memory_client_def fixtures)
  have c: "client_create_collection memory_client ''docs''
     \<lparr>dense_params = \<lparr>vp_size = 3, vp_distance = COSINE\<rparr>, sparse_on_disk = False\<rparr> empty_store
     = (Inr True, empty_store(''docs'' \<mapsto>
            \<lparr>coll_config = \<lparr>dense_params = \<lparr>vp_size = 3, vp_distance = COSINE\<rparr>,
                            sparse_on_disk = False\<rparr>,
             coll_points = []\<rparr>))"
    by (simp add: memory_client_def fixtures)
  note t = create_collection_twice [OF h1 h2 h3 h4 h5, of 3]
  from t d c h3
  have "create_collection (traced memory_client) (provider_on (empty_store, [])) ''docs'' 2 False
     = (Inr True, provider_on (store_with [], [CreateCollection ''docs'' docs_config])) \<and>
   create_collection (traced memory_client)
       (provider_on (store_with [], [CreateCollection ''docs'' docs_config])) ''docs'' 3 False
     = (Inr False, provider_on (store_with [], [CreateCollection ''docs'' docs_config])) \<and>
   create_collection (traced memory_client)
       (provider_on (store_with [], [CreateCollection ''docs'' docs_config])) ''docs'' 3 True
     = (Inr True,
        provider_on (empty_store(''docs'' \<mapsto>
            \<lparr>coll_config = \<lparr>dense_params = \<lparr>vp_size = 3, vp_distance = COSINE\<rparr>,
                            sparse_on_disk = False\<rparr>,
             coll_points = []\<rparr>),
          [CreateCollection ''docs'' docs_config, DeleteCollection ''docs'',
           CreateCollection ''docs''
             \<lparr>dense_params = \<lparr>vp_size = 3, vp_distance = COSINE\<rparr>, sparse_on_disk = False\<rparr>]))"
    by (auto simp add: provider_on_update docs_config_def)
  with h1 h2 h3 h4 h5 show ?thesis by blast
qed




section \<open>Batched insertion\<close>

text \<open>
  Claim C1. Let \<open>B\<close> be the batches \<open>0, ..., j\<close> as the loop builds them from the slices
  of size \<open>batch_size\<close>, let the uploads of the batches before \<open>j\<close> succeed one after
  the other, and let the upload of batch \<open>j\<close> raise. Then \<open>insert_many\<close> returns
  \<^verbatim>\<open>False\<close>; the client is in the state in which the uploads of \<open>B\<close> have left it, with
  nothing undone; and the commands sent are the uploads of the batches of \<open>B\<close> in
  order and nothing else, so no later batch is attempted.
\<close>

theorem insert_many_upload_raises:
  assumes "0 < batch_size"
    and "length B = Suc j"
    and "j * nat batch_size < length texts"
    and "\<forall>i \<le> j. batch_records texts dense sparse (default_metadata texts metadata)
                    (default_record_ids texts record_ids)
                    (i * nat batch_size) (i * nat batch_size + nat batch_size) = Inr (B ! i)"
    and "\<forall>i < j. fst (client_upload_records Q name (B ! i) (uploads_state Q name (take i B) s)) = None"
    and "fst (client_upload_records Q name (B ! j) (uploads_state Q name (take j B) s)) = Some e"
    and "client p = Some (s, calls)"
  shows "insert_many (traced Q) p name texts dense sparse metadata record_ids batch_size
           = (Inr False,
              p\<lparr>client := Some (uploads_state Q name B s, calls @ map (UploadRecords name) B)\<rparr>)"
proof -
  define bsz where "bsz = nat batch_size"
  define os where "os = map (\<lambda>k. k * bsz) [0..<(length texts + bsz - 1) div bsz]"
  have pos: "0 < bsz" using assms(1) by (simp add: bsz_def)
  have j: "j < (length texts + bsz - 1) div bsz"
    using assms(3) ceil_div_less_iff [OF pos, of j "length texts"] by (simp add: bsz_def)
  then have len: "j < length os" by (simp add: os_def)
  have nth: "os ! i = i * bsz" if "i \<le> j" for i
    using that j by (simp add: os_def)
  have built: "\<forall>i \<le> j. batch_records texts dense sparse (default_metadata texts metadata)
                    (default_record_ids texts record_ids) (os ! i) (os ! i + bsz) = Inr (B ! i)"
    using assms(4) by (simp add: nth bsz_def)
  have "insert_batches (traced Q) name texts dense sparse (default_metadata texts metadata)
          (default_record_ids texts record_ids) bsz os p
        = (Inr False,
           p\<lparr>client := Some (uploads_state Q name B s, calls @ map (UploadRecords name) B)\<rparr>)"
    by (rule insert_batches_upload_raises [OF assms(2) len built assms(5,6,7)])
  moreover have "range_step (length texts) batch_size = Inr os"
    unfolding os_def bsz_def by (rule range_step_positive [OF assms(1)])
  ultimately show ?thesis
    by (simp add: insert_many_def bsz_def [symmetric])
qed


theorem insert_many_upload_raises_witness:
  "batch_records [''a'', ''b'', ''c''] [[1, 0], [0, 1], [1]] [sv0, sv0, sv0]
     (default_metadata [''a'', ''b'', ''c''] None) (default_record_ids [''a'', ''b'', ''c''] None) 0 2
     = Inr [rec_a, rec_b] \<and>
   batch_records [''a'', ''b'', ''c''] [[1, 0], [0, 1], [1]] [sv0, sv0, sv0]
     (default_metadata [''a'', ''b'', ''c''] None) (default_record_ids [''a'', ''b'', ''c''] None) 2 4
     = Inr [rec_c] \<and>
   client_upload_records memory_client ''docs'' [rec_a, rec_b] (store_with [])
     = (None, store_with [rec_a, rec_b]) \<and>
   client_upload_records memory_client ''docs'' [rec_c] (store_with [rec_a, rec_b])
     = (Some (LibraryError ''dimension mismatch''), store_with [rec_a, rec_b]) \<and>
   insert_many (traced memory_client) (provider_on (store_with [], [])) ''docs''
     [''a'', ''b'', ''c''] [[1, 0], [0, 1], [1]] [sv0, sv0, sv0] None None 2
     = (Inr False,
        provider_on (store_with [rec_a, rec_b],
                     [UploadRecords ''docs'' [rec_a, rec_b], UploadRecords ''docs'' [rec_c]]))"
proof -
  define B where "B = [[rec_a, rec_b], [rec_c]]"
  let ?texts = "[''a'', ''b'', ''c'']"
  let ?dense = "[[1, 0], [0, 1], [1]] :: real list list"
  let ?sparse = "[sv0, sv0, sv0]"
  have h1: "(0::int) < 2" by simp
  have h2: "length B = Suc 1" by (simp add: B_def)
  have h3: "1 * nat 2 < length ?texts" by simp
  have h4: "\<forall>i \<le> 1. batch_records ?texts ?dense ?sparse (default_metadata ?texts None)
                    (default_record_ids ?texts None) (i * nat 2) (i * nat 2 + nat 2) = Inr (B ! i)"
  proof (intro allI impI)
    fix i :: nat assume "i \<le> 1"
    then consider "i = 0" | "i = 1" by linarith
    then show "batch_records ?texts ?dense ?sparse (default_metadata ?texts None)
                    (default_record_ids ?texts None) (i * nat 2) (i * nat 2 + nat 2) = Inr (B ! i)"
    proof cases
      case 1
      then show ?thesis using batch0 by (simp add: B_def eval_nat_numeral)
    next
      case 2
      then show ?thesis using batch1 by (simp add: B_def eval_nat_numeral)
    qed
  qed
  have h5: "\<forall>i < 1. fst (client_upload_records memory_client ''docs'' (B ! i)
                       (uploads_state memory_client ''docs'' (take i B) (store_with []))) = None"
    by (simp add: B_def uploads_state_def upload0)
  have h6: "fst (client_upload_records memory_client ''docs'' (B ! 1)
                       (uploads_state memory_client ''docs'' (take 1 B) (store_with [])))
            = Some (LibraryError ''dimension mismatch'')"
    by (simp add: B_def uploads_state_def upload0 upload1)
  have h7: "client (provider_on (store_with [], [])) = Some (store_with [], [])"
    by (simp add: provider_on_def)
  have final: "uploads_state memory_client ''docs'' B (store_with []) = store_with [rec_a, rec_b]"
    by (simp add: B_def uploads_state_def upload0 upload1)
  from insert_many_upload_raises [OF h1 h2 h3 h4 h5 h6 h7]
  have "insert_many (traced memory_client) (provider_on (store_with [], [])) ''docs''
     ?texts ?dense ?sparse None None 2
     = (Inr False,
        provider_on (store_with [rec_a, rec_b],
                     [UploadRecords ''docs'' [rec_a, rec_b], UploadRecords ''docs'' [rec_c]]))"
    by (simp add: final [unfolded B_def] provider_on_update B_def)
  with batch0 batch1 upload0 upload1 show ?thesis by blast
qed



text \<open>
  Claim C4, as amended. There is no check of the lengths before the loop. Let the
  batch size be positive and let, after the defaults, the shortest of the lists that
  run parallel to \<open>texts\<close> have \<open>k\<close> elements, fewer than \<open>texts\<close>. Write \<open>j\<close> for
  \<open>k div batch_size\<close> and \<open>B\<close> for the first \<open>j\<close> batches, which are complete.
  \<^item> If the uploads of the batches of \<open>B\<close> succeed one after the other, the call raises
    \<^verbatim>\<open>IndexError\<close>, having sent exactly the uploads of \<open>B\<close>, in order.
  \<^item> If the upload of batch \<open>i\<close> of \<open>B\<close> is the first that raises, the call returns
    \<^verbatim>\<open>False\<close>, having sent exactly the uploads of the batches \<open>0, ..., i\<close>.
  \<^item> In every case the call does not return \<^verbatim>\<open>True\<close>, the records sent are those of the
    positions \<open>0, ..., len - 1\<close> for a \<open>len\<close> of at most \<open>j * batch_size\<close>, so that no
    record is skipped and batch \<open>j\<close>, which holds position \<open>k\<close>, and the batches after it
    are never sent; and nothing at all is sent exactly when \<open>k < batch_size\<close>.
\<close>

theorem insert_many_short_list:
  assumes "0 < batch_size"
    and "shortest dense sparse (default_metadata texts metadata) (default_record_ids texts record_ids)
           < length texts"
    and "client p = Some (s, [])"
  shows "let bsz = nat batch_size;
             md = default_metadata texts metadata;
             ids = default_record_ids texts record_ids;
             k = shortest dense sparse md ids;
             j = k div bsz;
             B = leading_batches texts dense sparse md ids bsz j;
             run = insert_many (traced Q) p name texts dense sparse metadata record_ids batch_size
         in ((\<forall>i < j. fst (client_upload_records Q name (B ! i)
                              (uploads_state Q name (take i B) s)) = None) \<longrightarrow>
               run = (Inl IndexError,
                      p\<lparr>client := Some (uploads_state Q name B s, map (UploadRecords name) B)\<rparr>)) \<and>
            (\<forall>i < j. \<forall>e.
               (\<forall>i' < i. fst (client_upload_records Q name (B ! i')
                                (uploads_state Q name (take i' B) s)) = None) \<and>
               fst (client_upload_records Q name (B ! i) (uploads_state Q name (take i B) s)) = Some e
               \<longrightarrow>
               run = (Inr False,
                      p\<lparr>client := Some (uploads_state Q name (take (Suc i) B) s,
                                         map (UploadRecords name) (take (Suc i) B))\<rparr>)) \<and>
            fst run \<noteq> Inr True \<and>
            (\<exists>s' calls' len.
               client (snd run) = Some (s', calls') \<and>
               uploaded calls' = map (record_at texts dense sparse md ids) [0..<len] \<and>
               len \<le> j * bsz \<and>
               (calls' = [] \<longleftrightarrow> k < bsz))"
proof -
  define bsz where "bsz = nat batch_size"
  define md where "md = default_metadata texts metadata"
  define ids where "ids = default_record_ids texts record_ids"
  define k where "k = shortest dense sparse md ids"
  define j where "j = k div bsz"
  define B where "B = leading_batches texts dense sparse md ids bsz j"
  define os where "os = map (\<lambda>k. k * bsz) [0..<(length texts + bsz - 1) div bsz]"
  define run where
    "run = insert_many (traced Q) p name texts dense sparse metadata record_ids batch_size"
  define ok where
    "ok = (\<lambda>i. fst (client_upload_records Q name (B ! i) (uploads_state Q name (take i B) s)) = None)"
  have pos: "0 < bsz" using assms(1) by (simp add: bsz_def)
  have short: "shortest dense sparse md ids < length texts"
    using assms(2) by (simp add: md_def ids_def)
  note sb = short_list_batches [OF pos short, folded k_def j_def, folded B_def, folded os_def]
  have rs: "range_step (length texts) batch_size = Inr os"
    unfolding os_def bsz_def by (rule range_step_positive [OF assms(1)])
  have run_eq: "run = insert_batches (traced Q) name texts dense sparse md ids bsz os p"
    by (simp add: run_def insert_many_def rs md_def ids_def bsz_def)
  have all_ok: "run = (Inl IndexError,
                      p\<lparr>client := Some (uploads_state Q name B s, map (UploadRecords name) B)\<rparr>)"
    if "\<forall>i < j. ok i"
  proof -
    from that have up: "\<forall>i < j. fst (client_upload_records Q name (B ! i)
                              (uploads_state Q name (take i B) s)) = None"
      by (simp add: ok_def)
    show ?thesis
      unfolding run_eq
      using insert_batches_build_raises [OF sb(1) sb(2) sb(3) sb(4) up assms(3)] by simp
  qed
  have one_fails: "run = (Inr False,
                      p\<lparr>client := Some (uploads_state Q name (take (Suc i) B) s,
                                         map (UploadRecords name) (take (Suc i) B))\<rparr>)"
    if i: "i < j" and before: "\<forall>i' < i. ok i'"
      and this_one: "fst (client_upload_records Q name (B ! i) (uploads_state Q name (take i B) s)) = Some e"
    for i e
  proof -
    let ?B = "take (Suc i) B"
    have len: "length ?B = Suc i" using i sb(1) by simp
    have i_os: "i < length os" using i sb(2) by simp
    have built: "\<forall>i' \<le> i. batch_records texts dense sparse md ids (os ! i') (os ! i' + bsz) = Inr (?B ! i')"
      using sb(3) i by simp
    have tk: "take i' ?B = take i' B" if "i' \<le> i" for i'
      using that by (simp add: min_def)
    have up: "\<forall>i' < i. fst (client_upload_records Q name (?B ! i')
                              (uploads_state Q name (take i' ?B) s)) = None"
      using before by (simp add: ok_def tk)
    have fails: "fst (client_upload_records Q name (?B ! i) (uploads_state Q name (take i ?B) s)) = Some e"
      using this_one by (simp add: tk)
    show ?thesis
      unfolding run_eq
      using insert_batches_upload_raises [OF len i_os built up fails assms(3)] by simp
  qed
  have j0: "j = 0 \<longleftrightarrow> k < bsz" unfolding j_def using pos by (simp add: div_eq_0_iff)
  have lenB: "length B = j" by (rule sb(1))
  consider (good) "\<forall>i < j. ok i" | (bad) i where "i < j" "\<forall>i' < i. ok i'" "\<not> ok i"
    using first_failure [of j ok] by blast
  then have shape: "fst run \<noteq> Inr True \<and>
            (\<exists>s' calls'. client (snd run) = Some (s', calls') \<and> (calls' = [] \<longleftrightarrow> k < bsz))"
  proof cases
    case good
    from all_ok [OF good] j0 lenB show ?thesis by auto
  next
    case bad
    from bad(3) obtain e where
      "fst (client_upload_records Q name (B ! i) (uploads_state Q name (take i B) s)) = Some e"
      by (auto simp: ok_def)
    from one_fails [OF bad(1,2) this] bad(1) j0 lenB show ?thesis by auto
  qed
  obtain r p' where rp: "insert_batches (traced Q) name texts dense sparse md ids bsz
               (map (\<lambda>k. k * bsz) [0..<(length texts + bsz - 1) div bsz]) p = (r, p')"
    by (cases "insert_batches (traced Q) name texts dense sparse md ids bsz
               (map (\<lambda>k. k * bsz) [0..<(length texts + bsz - 1) div bsz]) p")
  have start: "uploaded [] = map (record_at texts dense sparse md ids) [0..<min (0 * bsz) (length texts)]"
    by simp
  from insert_batches_trace [OF refl refl k_def refl pos assms(3) start _ rp] short
  obtain s'' calls'' len where res: "client p' = Some (s'', calls'')"
    and up: "uploaded calls'' = map (record_at texts dense sparse md ids) [0..<len]"
    and le: "len \<le> k div bsz * bsz"
    unfolding k_def by auto
  have snd_run: "snd run = p'" unfolding run_eq os_def using rp by simp
  from shape res up le snd_run
  have last: "\<exists>s' calls' len.
               client (snd run) = Some (s', calls') \<and>
               uploaded calls' = map (record_at texts dense sparse md ids) [0..<len] \<and>
               len \<le> j * bsz \<and>
               (calls' = [] \<longleftrightarrow> k < bsz)"
    unfolding j_def by auto
  from all_ok one_fails shape last show ?thesis
    unfolding Let_def bsz_def [symmetric] md_def [symmetric] ids_def [symmetric] k_def [symmetric]
      j_def [symmetric] B_def [symmetric] run_def [symmetric] ok_def
    by blast
qed

theorem insert_many_short_list_witness:
  "shortest [[1, 0]] [sv0, sv0] (default_metadata [''a'', ''b''] (None :: unit option list option))
     (default_record_ids [''a'', ''b''] None) = 1 \<and>
   client_upload_records memory_client ''docs'' [rec_a] (store_with []) = (None, store_with [rec_a]) \<and>
   insert_many (traced memory_client) (provider_on (store_with [], [])) ''docs''
     [''a'', ''b''] [[1, 0]] [sv0, sv0] None None 1
   = (Inl IndexError, provider_on (store_with [rec_a], [UploadRecords ''docs'' [rec_a]])) \<and>
   shortest [[1]] [sv0, sv0] (default_metadata [''c'', ''a''] (None :: unit option list option))
     (default_record_ids [''c'', ''a''] None) = 1 \<and>
   client_upload_records memory_client ''docs'' [rec_bad] (store_with [])
     = (Some (LibraryError ''dimension mismatch''), store_with []) \<and>
   insert_many (traced memory_client) (provider_on (store_with [], [])) ''docs''
     [''c'', ''a''] [[1]] [sv0, sv0] None None 1
   = (Inr False, provider_on (store_with [], [UploadRecords ''docs'' [rec_bad]]))"
proof -
  have h1: "(0::int) < 1" by simp
  have sh: "shortest [[1, 0]] [sv0, sv0] (default_metadata [''a'', ''b''] (None :: unit option list option))
     (default_record_ids [''a'', ''b''] None) = 1"
    by (simp add: shortest_def default_metadata_def default_record_ids_def)
  have sh': "shortest [[1]] [sv0, sv0] (default_metadata [''c'', ''a''] (None :: unit option list option))
     (default_record_ids [''c'', ''a''] None) = 1"
    by (simp add: shortest_def default_metadata_def default_record_ids_def)
  have h2: "shortest [[1, 0]] [sv0, sv0] (default_metadata [''a'', ''b''] (None :: unit option list option))
     (default_record_ids [''a'', ''b''] None) < length [''a'', ''b'']"
    unfolding sh by simp
  have h2': "shortest [[1]] [sv0, sv0] (default_metadata [''c'', ''a''] (None :: unit option list option))
     (default_record_ids [''c'', ''a''] None) < length [''c'', ''a'']"
    unfolding sh' by simp
  have h3: "client (provider_on (store_with [], [])) = Some (store_with [], [])"
    by (simp add: provider_on_def)
  from insert_many_short_list [OF h1 h2 h3, of memory_client "''docs''"]
  have a: "insert_many (traced memory_client) (provider_on (store_with [], [])) ''docs''
     [''a'', ''b''] [[1, 0]] [sv0, sv0] None None 1
   = (Inl IndexError, provider_on (store_with [rec_a], [UploadRecords ''docs'' [rec_a]]))"
    unfolding Let_def sh
    by (simp add: short_list_B [unfolded One_nat_def] uploads_state_def upload_a provider_on_update)
  from insert_many_short_list [OF h1 h2' h3, of memory_client "''docs''"]
  have b: "insert_many (traced memory_client) (provider_on (store_with [], [])) ''docs''
     [''c'', ''a''] [[1]] [sv0, sv0] None None 1
   = (Inr False, provider_on (store_with [], [UploadRecords ''docs'' [rec_bad]]))"
    unfolding Let_def sh'
    by (simp add: bad_list_B [unfolded One_nat_def] uploads_state_def upload_bad provider_on_update)
  from sh upload_a a sh' upload_bad b show ?thesis by blast
qed

text \<open>
  As stated, C4 fails: with two texts, one dense vector and batches of one record, the
  first record is uploaded and stored before the second batch raises \<^verbatim>\<open>IndexError\<close>,
  which leaves the method as an exception, not as \<^verbatim>\<open>False\<close>.
\<close>

theorem insert_many_short_list_counterexample:
  "insert_many (traced memory_client) (provider_on (store_with [], [])) ''docs''
     [''a'', ''b''] [[1, 0]] [sv0, sv0] None None 1
   = (Inl IndexError, provider_on (store_with [rec_a], [UploadRecords ''docs'' [rec_a]]))"
  by (rule short_list_run)

text \<open>
  Claim C10, as amended. With an empty \<open>texts\<close> and a batch size other than zero,
  \<open>insert_many\<close> returns \<^verbatim>\<open>True\<close> and leaves the provider and its client untouched,
  whatever the client is, whether the provider is connected and whether the collection
  exists. (\<^verbatim>\<open>range\<close> refuses the step zero.)
\<close>

theorem insert_many_empty:
  "batch_size \<noteq> 0 \<Longrightarrow>
   insert_many Q p name [] dense sparse metadata record_ids batch_size = (Inr True, p)"
  by (simp add: insert_many_def range_step_def)

theorem insert_many_empty_witness:
  "(50::int) \<noteq> 0 \<and>
   insert_many (traced memory_client) (provider_on (store_with [], [])) ''missing'' [] [] [] None None 50
     = (Inr True, provider_on (store_with [], []))"
proof -
  have h: "(50::int) \<noteq> 0" by simp
  from insert_many_empty [OF h] show ?thesis by simp
qed

text \<open>As stated, C10 fails for the batch size zero: the call raises \<^verbatim>\<open>ValueError\<close>.\<close>

theorem insert_many_empty_counterexample:
  "insert_many (traced memory_client) (provider_on (store_with [], [])) ''docs'' [] [] [] None None 0
     = (Inl ValueError, provider_on (store_with [], []))"
  by (simp add: insert_many_def range_step_def)

section \<open>Search\<close>

text \<open>
  Both search methods hand the query to the client and turn the points of its answer
  into (score, text) pairs, in the client's order. Scoring, fusion and ranking are the
  client's; the provider holds no code for them.
\<close>

text \<open>
  Claim C5. When the dense query of the client yields no point, \<open>search_by_vector\<close>
  returns \<^verbatim>\<open>None\<close>: neither an exception nor an empty list. When it yields points, the
  result is the list of their (score, text) pairs, in the same order, which is not
  empty.
\<close>

theorem search_by_vector_none:
  assumes "client p = Some s"
    and "client_query_points Q name
           \<lparr>q_query = Nearest v, q_using = Some ''dense'', q_prefetch = [], q_limit = limit\<rparr> s
         = Inr points"
  shows "(points = [] \<longrightarrow> search_by_vector Q p name v limit = Inr None) \<and>
         (points \<noteq> [] \<longrightarrow>
            search_by_vector Q p name v limit
              = Inr (Some (map (\<lambda>r. \<lparr>doc_score = sp_score r,
                                      doc_text = payload_text (sp_payload r)\<rparr>) points)) \<and>
            map (\<lambda>r. \<lparr>doc_score = sp_score r, doc_text = payload_text (sp_payload r)\<rparr>) points \<noteq> [])"
  using assms by (simp add: search_by_vector_def retrieved_def)

theorem search_by_vector_none_witness:
  "client (provider_on (store_with [])) = Some (store_with []) \<and>
   search_by_vector memory_client (provider_on (store_with [])) ''docs'' [1, 0] 5 = Inr None \<and>
   client (provider_on (store_with [rec_a, rec_b])) = Some (store_with [rec_a, rec_b]) \<and>
   search_by_vector memory_client (provider_on (store_with [rec_a, rec_b])) ''docs'' [1, 0] 5
     = Inr (Some [\<lparr>doc_score = 0, doc_text = ''a''\<rparr>, \<lparr>doc_score = 0, doc_text = ''b''\<rparr>])"
proof -
  have c0: "client (provider_on (store_with [])) = Some (store_with [])"
    and c2: "client (provider_on (store_with [rec_a, rec_b])) = Some (store_with [rec_a, rec_b])"
    by (simp_all add: provider_on_def)
  have q0: "client_query_points memory_client ''docs''
              \<lparr>q_query = Nearest [1, 0], q_using = Some ''dense'', q_prefetch = [], q_limit = 5\<rparr>
              (store_with []) = Inr ([] :: unit scored_point list)"
    by (simp add: memory_client_def store_with_def)
  have q2: "client_query_points memory_client ''docs''
              \<lparr>q_query = Nearest [1, 0], q_using = Some ''dense'', q_prefetch = [], q_limit = 5\<rparr>
              (store_with [rec_a, rec_b])
            = Inr [\<lparr>sp_score = 0, sp_payload = rec_payload rec_a\<rparr>,
                   \<lparr>sp_score = 0, sp_payload = rec_payload rec_b\<rparr>]"
    by (simp add: memory_client_def store_with_def)
  from search_by_vector_none [OF c0 q0]
  have r0: "search_by_vector memory_client (provider_on (store_with [])) ''docs'' [1, 0] 5 = Inr None"
    by simp
  from search_by_vector_none [OF c2 q2]
  have r2: "search_by_vector memory_client (provider_on (store_with [rec_a, rec_b])) ''docs'' [1, 0] 5
     = Inr (Some [\<lparr>doc_score = 0, doc_text = ''a''\<rparr>, \<lparr>doc_score = 0, doc_text = ''b''\<rparr>])"
    by (simp add: rec_a_def rec_b_def)
  from c0 r0 c2 r2 show ?thesis by simp
qed

text \<open>
  Claim C6. \<open>search_hybrid\<close> returns \<^verbatim>\<open>None\<close> exactly when the fusion query of the
  client yields no point; otherwise it returns the (score, text) pairs of the points in
  the client's order, the text being that of the point's payload.
\<close>

theorem search_hybrid_none:
  assumes "client p = Some s"
    and "client_query_points Q name
           \<lparr>q_query = FusionRRF, q_using = None,
            q_prefetch = [\<lparr>pf_query = Nearest dv, pf_using = ''dense'', pf_limit = dense_limit\<rparr>,
                          \<lparr>pf_query = NearestSparse sv, pf_using = ''sparse'', pf_limit = sparse_limit\<rparr>],
            q_limit = limit\<rparr> s
         = Inr points"
  shows "(search_hybrid Q p name dv sv dense_limit sparse_limit limit = Inr None \<longleftrightarrow> points = []) \<and>
         (points \<noteq> [] \<longrightarrow>
            search_hybrid Q p name dv sv dense_limit sparse_limit limit
              = Inr (Some (map (\<lambda>r. \<lparr>doc_score = sp_score r,
                                      doc_text = payload_text (sp_payload r)\<rparr>) points)))"
  using assms by (simp add: search_hybrid_def retrieved_def)

theorem search_hybrid_none_witness:
  "client (provider_on (store_with [])) = Some (store_with []) \<and>
   search_hybrid memory_client (provider_on (store_with [])) ''docs'' [1, 0] sv0 10 10 5 = Inr None \<and>
   client (provider_on (store_with [rec_a, rec_b])) = Some (store_with [rec_a, rec_b]) \<and>
   search_hybrid memory_client (provider_on (store_with [rec_a, rec_b])) ''docs'' [1, 0] sv0 10 10 5
     = Inr (Some [\<lparr>doc_score = 0, doc_text = ''a''\<rparr>, \<lparr>doc_score = 0, doc_text = ''b''\<rparr>])"
proof -
  have c0: "client (provider_on (store_with [])) = Some (store_with [])"
    and c2: "client (provider_on (store_with [rec_a, rec_b])) = Some (store_with [rec_a, rec_b])"
    by (simp_all add: provider_on_def)
  have q0: "client_query_points memory_client ''docs''
              \<lparr>q_query = FusionRRF, q_using = None,
               q_prefetch = [\<lparr>pf_query = Nearest [1, 0], pf_using = ''dense'', pf_limit = 10\<rparr>,
                             \<lparr>pf_query = NearestSparse sv0, pf_using = ''sparse'', pf_limit = 10\<rparr>],
               q_limit = 5\<rparr>
              (store_with []) = Inr ([] :: unit scored_point list)"
    by (simp add: memory_client_def store_with_def)
  have q2: "client_query_points memory_client ''docs''
              \<lparr>q_query = FusionRRF, q_using = None,
               q_prefetch = [\<lparr>pf_query = Nearest [1, 0], pf_using = ''dense'', pf_limit = 10\<rparr>,
                             \<lparr>pf_query = NearestSparse sv0, pf_using = ''sparse'', pf_limit = 10\<rparr>],
               q_limit = 5\<rparr>
              (store_with [rec_a, rec_b])
            = Inr [\<lparr>sp_score = 0, sp_payload = rec_payload rec_a\<rparr>,
                   \<lparr>sp_score = 0, sp_payload = rec_payload rec_b\<rparr>]"
    by (simp add: memory_client_def store_with_def)
  from search_hybrid_none [OF c0 q0]
  have r0: "search_hybrid memory_client (provider_on (store_with [])) ''docs'' [1, 0] sv0 10 10 5 = Inr None"
    by simp
  from search_hybrid_none [OF c2 q2]
  have r2: "search_hybrid memory_client (provider_on (store_with [rec_a, rec_b])) ''docs'' [1, 0] sv0 10 10 5
     = Inr (Some [\<lparr>doc_score = 0, doc_text = ''a''\<rparr>, \<lparr>doc_score = 0, doc_text = ''b''\<rparr>])"
    by (simp add: rec_a_def rec_b_def)
  from c0 r0 c2 r2 show ?thesis by simp
qed

end
